theory Spec2Isabelle
  imports
    Main
    "HOL-Library.Char_ord"
    "HOL-Library.List_Lexorder"
    "HOL-Library.Sublist"
begin

unbundle bit_operations_syntax

section \<open>undocker3: layer chains, union extraction and whiteouts\<close>

text \<open>
  A shallow embedding of \<^verbatim>\<open>undocker3.py\<close> and \<^verbatim>\<open>constants.py\<close>. Python integers
  are \<open>int\<close>, strings are \<open>string\<close>, exceptions are values of \<open>py_exn\<close>, and the
  operating system and the \<^verbatim>\<open>tarfile\<close> library are an explicit world that every
  effectful function takes and returns.
\<close>

subsection \<open>constants.py\<close>

definition OWNER_READ_WRITE :: int where
  "OWNER_READ_WRITE = 448"  \<comment> \<open>\<^verbatim>\<open>0o700\<close>\<close>

definition DIRECTORY_MODE :: int where
  "DIRECTORY_MODE = 16384"  \<comment> \<open>\<^verbatim>\<open>0o40000\<close>\<close>

definition OWNER_WRITE :: int where
  "OWNER_WRITE = 130"  \<comment> \<open>\<^verbatim>\<open>0b10000010\<close>, that is \<^verbatim>\<open>0o202\<close>\<close>


definition S_IWOTH :: int where
  "S_IWOTH = 2"  \<comment> \<open>\<^verbatim>\<open>0o002\<close>, write permission of others\<close>

definition S_IRWXO :: int where
  "S_IRWXO = 7"  \<comment> \<open>\<^verbatim>\<open>0o007\<close>, all permissions of others\<close>

subsection \<open>Exceptions\<close>

text \<open>
  The exceptions that the program raises, catches or lets escape. \<open>OSError\<close> carries
  its \<^verbatim>\<open>errno\<close>, \<open>ExtractError\<close> its message, \<open>SystemExit\<close> the exit code.
\<close>

datatype py_exn =
    ExtractError string
  | OSError int
  | KeyError string
  | StopIteration
  | SystemExit int

definition ENOENT :: int where
  "ENOENT = 2"

subsection \<open>Layer metadata and \<^verbatim>\<open>find_layers\<close>\<close>

text \<open>
  The document \<^verbatim>\<open><id>/json\<close> of a layer. Only the key \<^verbatim>\<open>parent\<close> decides anything;
  the keys \<^verbatim>\<open>os\<close>, \<^verbatim>\<open>architecture\<close>, \<^verbatim>\<open>author\<close> and \<^verbatim>\<open>created\<close> are only written to
  the debug log. The archive's metadata is a map from layer id to its document:
  \<^verbatim>\<open>img.extractfile\<close> raises \<^verbatim>\<open>KeyError\<close> for a name the archive does not have.
\<close>

record layer_info =
  parent :: "string option"

type_synonym layer_json = "string \<rightharpoonup> layer_info"

text \<open>
  \<^verbatim>\<open>find_layers\<close> is a recursive generator: it yields \<^verbatim>\<open>id\<close>, then everything the
  walk from the parent yields. \<^verbatim>\<open>main\<close> drains it with \<^verbatim>\<open>list(...)\<close>, so the model
  returns the whole list, or the exception that escapes while the list is built. The
  recursion has no bound of its own and no guard, so it is a partial function:
  \<open>None\<close> means that the walk never returns.
\<close>

partial_function (option) find_layers ::
  "layer_json \<Rightarrow> string \<Rightarrow> (py_exn + string list) option"
where
  "find_layers img lid =
     (case img lid of
        None \<Rightarrow> Some (Inl (KeyError (lid @ ''/json'')))
      | Some info \<Rightarrow>
          (case parent info of
             None \<Rightarrow> Some (Inr [lid])
           | Some pid \<Rightarrow>
               Option.bind (find_layers img pid)
                 (\<lambda>r. case r of
                        Inl e \<Rightarrow> Some (Inl e)
                      | Inr layers \<Rightarrow> Some (Inr (lid # layers)))))"

declare find_layers.simps [code]

text \<open>
  The layers that the loop of \<^verbatim>\<open>main\<close> extracts, in order:
  \<^verbatim>\<open>for id in reversed(layers): if args.layer and id not in args.layer: continue\<close>.
  \<^verbatim>\<open>args.layer\<close> is \<^verbatim>\<open>None\<close> unless \<^verbatim>\<open>--layer\<close> was given.
\<close>

definition selected :: "string list option \<Rightarrow> string \<Rightarrow> bool" where
  "selected args_layer lid =
     (case args_layer of
        None \<Rightarrow> True
      | Some ls \<Rightarrow> \<not> (ls \<noteq> [] \<and> lid \<notin> set ls))"

definition extraction_order :: "string list option \<Rightarrow> string list \<Rightarrow> string list" where
  "extraction_order args_layer layers = filter (selected args_layer) (rev layers)"

text \<open>
  A parent-linked chain: every id has metadata, each id is followed by its parent,
  and the last layer has no parent.
\<close>

fun is_chain :: "layer_json \<Rightarrow> string list \<Rightarrow> bool" where
  "is_chain img [] = False"
| "is_chain img [x] = (case img x of None \<Rightarrow> False | Some info \<Rightarrow> parent info = None)"
| "is_chain img (x # y # ys) =
     (case img x of
        None \<Rightarrow> False
      | Some info \<Rightarrow> parent info = Some y \<and> is_chain img (y # ys))"


subsection \<open>Strings and paths\<close>

text \<open>\<^verbatim>\<open>sub in s\<close> on strings.\<close>

fun contains :: "string \<Rightarrow> string \<Rightarrow> bool" where
  "contains sub [] = (sub = [])"
| "contains sub (c # cs) = (prefix sub (c # cs) \<or> contains sub cs)"

text \<open>
  \<^verbatim>\<open>s.replace(old, new)\<close> for a non-empty \<^verbatim>\<open>old\<close>: every occurrence, found from the
  left and not overlapping, is replaced. (The program only calls it with
  \<^verbatim>\<open>old = '/.wh.'\<close>.)
\<close>

function str_replace :: "string \<Rightarrow> string \<Rightarrow> string \<Rightarrow> string" where
  "str_replace old new [] = []"
| "str_replace old new (c # cs) =
     (if old \<noteq> [] \<and> prefix old (c # cs)
      then new @ str_replace old new (drop (length old) (c # cs))
      else c # str_replace old new cs)"
  by pat_completeness auto
termination
  by (relation "measure (\<lambda>(old, new, s). length s)") auto

text \<open>\<^verbatim>\<open>s.split(':', 1)\<close>: \<open>None\<close> when there is no colon (the list has one element).\<close>

fun split_colon :: "string \<Rightarrow> (string \<times> string) option" where
  "split_colon [] = None"
| "split_colon (c # cs) =
     (if c = CHR '':'' then Some ([], cs)
      else map_option (\<lambda>(a, b). (c # a, b)) (split_colon cs))"

text \<open>\<^verbatim>\<open>sep.join(xs)\<close>.\<close>

fun str_join :: "string \<Rightarrow> string list \<Rightarrow> string" where
  "str_join sep [] = []"
| "str_join sep [x] = x"
| "str_join sep (x # y # ys) = x @ sep @ str_join sep (y # ys)"

text \<open>\<^verbatim>\<open>os.path.join(a, b)\<close> of \<^verbatim>\<open>posixpath\<close>, for two arguments.\<close>

definition os_path_join :: "string \<Rightarrow> string \<Rightarrow> string" where
  "os_path_join a b =
     (if prefix ''/'' b then b
      else if a = [] \<or> suffix ''/'' a then a @ b
      else a @ ''/'' @ b)"

subsection \<open>Archive entries\<close>

text \<open>
  A \<^verbatim>\<open>TarInfo\<close> object. \<^verbatim>\<open>isdir()\<close> looks at the type field, not at the mode;
  \<^verbatim>\<open>member.path\<close> is an alias of \<^verbatim>\<open>member.name\<close>.
\<close>

datatype entry_type = REGTYPE | DIRTYPE | SYMTYPE | LNKTYPE | OTHERTYPE

record tarinfo =
  name :: string
  mode :: int
  tartype :: entry_type
  uid :: int
  gid :: int
  mtime :: int
  linkname :: string

definition isdir :: "tarinfo \<Rightarrow> bool" where
  "isdir t = (tartype t = DIRTYPE)"

subsection \<open>The world: operating system and \<^verbatim>\<open>tarfile\<close> library\<close>

text \<open>
  The methods of \<^verbatim>\<open>TarFile\<close> that \<^verbatim>\<open>TarFileOverrides\<close> inherits and calls
  (\<^verbatim>\<open>extract\<close>, \<^verbatim>\<open>chown\<close>, \<^verbatim>\<open>utime\<close>, \<^verbatim>\<open>chmod\<close>, \<^verbatim>\<open>_dbg\<close>) and the functions of
  \<^verbatim>\<open>os\<close> that \<^verbatim>\<open>main\<close> calls (\<^verbatim>\<open>unlink\<close>, \<^verbatim>\<open>path.isdir\<close>, \<^verbatim>\<open>mkdir\<close>) are not code
  of this program. They are parameters of the model: each takes the world and returns the
  exception it raises, if any, and the world it leaves. \<^verbatim>\<open>extract\<close> also reads the
  \<^verbatim>\<open>errorlevel\<close> of the archive object, so it takes it as its first argument
  (the field is \<open>tf_extract\<close>).
\<close>

record 'w os_ops =
  tf_extract :: "int \<Rightarrow> tarinfo \<Rightarrow> string \<Rightarrow> bool \<Rightarrow> bool \<Rightarrow> 'w \<Rightarrow> py_exn option \<times> 'w"
  chown :: "tarinfo \<Rightarrow> string \<Rightarrow> bool \<Rightarrow> 'w \<Rightarrow> py_exn option \<times> 'w"
  utime :: "tarinfo \<Rightarrow> string \<Rightarrow> 'w \<Rightarrow> py_exn option \<times> 'w"
  chmod :: "tarinfo \<Rightarrow> string \<Rightarrow> 'w \<Rightarrow> py_exn option \<times> 'w"
  dbg :: "nat \<Rightarrow> string \<Rightarrow> 'w \<Rightarrow> 'w"
  unlink :: "string \<Rightarrow> 'w \<Rightarrow> py_exn option \<times> 'w"
  os_path_isdir :: "string \<Rightarrow> 'w \<Rightarrow> bool"
  mkdir :: "string \<Rightarrow> 'w \<Rightarrow> py_exn option \<times> 'w"

subsection \<open>\<^verbatim>\<open>TarFileOverrides.extractall\<close>\<close>

text \<open>
  The member objects of an archive are shared: \<^verbatim>\<open>directories\<close> holds references to
  the objects that \<^verbatim>\<open>getmembers()\<close> returns, and the second loop assigns to one of
  their fields. The model keeps the objects in a store, the list \<open>members\<close>, and a
  reference is an index into it; every function that can assign returns the store.

  First loop (lines 42 to 50), over the references \<open>is\<close>: a directory is recorded and
  extracted through a copy with mode \<^verbatim>\<open>OWNER_READ_WRITE\<close> and without attributes, any
  other entry is extracted as it is. An exception of \<^verbatim>\<open>extract\<close> ends the loop.
\<close>

fun extract_loop ::
  "'w os_ops \<Rightarrow> int \<Rightarrow> string \<Rightarrow> bool \<Rightarrow> tarinfo list \<Rightarrow> nat list \<Rightarrow> nat list \<Rightarrow> 'w
   \<Rightarrow> py_exn option \<times> nat list \<times> 'w"
where
  "extract_loop ops errorlevel path numeric_owner members [] directories w =
     (None, directories, w)"
| "extract_loop ops errorlevel path numeric_owner members (i # is) directories w =
     (let tarinfo = members ! i;
          directories' = (if isdir tarinfo then directories @ [i] else directories);
          tarinfo' = (if isdir tarinfo then tarinfo\<lparr>mode := OWNER_READ_WRITE\<rparr> else tarinfo)
      in case tf_extract ops errorlevel tarinfo' path (\<not> isdir tarinfo') numeric_owner w of
           (Some e, w') \<Rightarrow> (Some e, directories', w')
         | (None, w') \<Rightarrow>
             extract_loop ops errorlevel path numeric_owner members is directories' w')"

text \<open>Lines 53 and 54: a stable sort by name, then the reversal.\<close>

definition reverse_sorted :: "tarinfo list \<Rightarrow> nat list \<Rightarrow> nat list" where
  "reverse_sorted members directories = rev (sort_key (\<lambda>i. name (members ! i)) directories)"

text \<open>The body of the \<^verbatim>\<open>try\<close> (lines 60 to 64) for the directory with reference \<open>i\<close>.\<close>

definition try_set_attrs ::
  "'w os_ops \<Rightarrow> string \<Rightarrow> bool \<Rightarrow> tarinfo list \<Rightarrow> nat \<Rightarrow> 'w
   \<Rightarrow> py_exn option \<times> tarinfo list \<times> 'w"
where
  "try_set_attrs ops path numeric_owner members i w =
     (let tarinfo = members ! i;
          dirpath = os_path_join path (name tarinfo)
      in case chown ops tarinfo dirpath numeric_owner w of
           (Some e, w1) \<Rightarrow> (Some e, members, w1)
         | (None, w1) \<Rightarrow>
             (case utime ops tarinfo dirpath w1 of
                (Some e, w2) \<Rightarrow> (Some e, members, w2)
              | (None, w2) \<Rightarrow>
                  (let members' =
                         (if mode tarinfo AND DIRECTORY_MODE \<noteq> 0
                          then members[i := tarinfo\<lparr>mode := mode tarinfo OR OWNER_WRITE\<rparr>]
                          else members)
                   in case chmod ops (members' ! i) dirpath w2 of
                        (r, w3) \<Rightarrow> (r, members', w3))))"

text \<open>The \<^verbatim>\<open>try\<close> with its handler (lines 59 to 69).\<close>

definition set_dir_attrs ::
  "'w os_ops \<Rightarrow> int \<Rightarrow> string \<Rightarrow> bool \<Rightarrow> tarinfo list \<Rightarrow> nat \<Rightarrow> 'w
   \<Rightarrow> py_exn option \<times> tarinfo list \<times> 'w"
where
  "set_dir_attrs ops errorlevel path numeric_owner members i w =
     (case try_set_attrs ops path numeric_owner members i w of
        (None, members', w') \<Rightarrow> (None, members', w')
      | (Some (ExtractError msg), members', w') \<Rightarrow>
          (if errorlevel > 1 then (Some (ExtractError msg), members', w')
           else (None, members', dbg ops 1 (''tarfile: '' @ msg) w'))
      | (Some e, members', w') \<Rightarrow> (Some e, members', w'))"

text \<open>Second loop (lines 57 to 69).\<close>

fun set_attrs_loop ::
  "'w os_ops \<Rightarrow> int \<Rightarrow> string \<Rightarrow> bool \<Rightarrow> tarinfo list \<Rightarrow> nat list \<Rightarrow> 'w
   \<Rightarrow> py_exn option \<times> tarinfo list \<times> 'w"
where
  "set_attrs_loop ops errorlevel path numeric_owner members [] w = (None, members, w)"
| "set_attrs_loop ops errorlevel path numeric_owner members (i # is) w =
     (case set_dir_attrs ops errorlevel path numeric_owner members i w of
        (Some e, members', w') \<Rightarrow> (Some e, members', w')
      | (None, members', w') \<Rightarrow>
          set_attrs_loop ops errorlevel path numeric_owner members' is w')"

text \<open>
  \<^verbatim>\<open>extractall(path, members, numeric_owner)\<close> on an archive object with the given
  \<^verbatim>\<open>errorlevel\<close> and member store. \<open>ms = None\<close> is \<^verbatim>\<open>members=None\<close>: all members, in
  archive order. The result is the exception that escapes, the store and the world.
\<close>

definition extractall ::
  "'w os_ops \<Rightarrow> int \<Rightarrow> string \<Rightarrow> nat list option \<Rightarrow> bool \<Rightarrow> tarinfo list \<Rightarrow> 'w
   \<Rightarrow> py_exn option \<times> tarinfo list \<times> 'w"
where
  "extractall ops errorlevel path ms numeric_owner members w =
     (case extract_loop ops errorlevel path numeric_owner members
             (case ms of None \<Rightarrow> [0..<length members] | Some is \<Rightarrow> is) [] w of
        (Some e, directories, w') \<Rightarrow> (Some e, members, w')
      | (None, directories, w') \<Rightarrow>
          set_attrs_loop ops errorlevel path numeric_owner members
            (reverse_sorted members directories) w')"

subsection \<open>Whiteouts (lines 192 to 206 of \<^verbatim>\<open>main\<close>)\<close>

definition is_whiteout :: "string \<Rightarrow> bool" where
  "is_whiteout path = (prefix ''.wh.'' path \<or> contains ''/.wh.'' path)"

definition whiteout_newpath :: "string \<Rightarrow> string" where
  "whiteout_newpath path =
     (if prefix ''.wh.'' path then drop 4 path else str_replace ''/.wh.'' ''/'' path)"

text \<open>
  The \<^verbatim>\<open>try\<close> of lines 200 to 206: both paths are handed to \<^verbatim>\<open>os.unlink\<close> as they
  are, the second only when the first call returned. The handler catches \<^verbatim>\<open>OSError\<close>
  and raises it again unless its \<^verbatim>\<open>errno\<close> is \<^verbatim>\<open>ENOENT\<close>.
\<close>

definition except_OSError :: "py_exn \<Rightarrow> 'w \<Rightarrow> py_exn option \<times> 'w" where
  "except_OSError e w =
     (case e of
        OSError n \<Rightarrow> (if n \<noteq> ENOENT then (Some e, w) else (None, w))
      | _ \<Rightarrow> (Some e, w))"

definition remove_whiteout :: "'w os_ops \<Rightarrow> string \<Rightarrow> 'w \<Rightarrow> py_exn option \<times> 'w" where
  "remove_whiteout ops path w =
     (let newpath = whiteout_newpath path
      in case unlink ops path w of
           (Some e, w1) \<Rightarrow> except_OSError e w1
         | (None, w1) \<Rightarrow>
             (case unlink ops newpath w1 of
                (Some e, w2) \<Rightarrow> except_OSError e w2
              | (None, w2) \<Rightarrow> (None, w2)))"

fun process_whiteouts :: "'w os_ops \<Rightarrow> tarinfo list \<Rightarrow> 'w \<Rightarrow> py_exn option \<times> 'w" where
  "process_whiteouts ops [] w = (None, w)"
| "process_whiteouts ops (member # ms) w =
     (let path = name member
      in if is_whiteout path
         then (case remove_whiteout ops path w of
                 (Some e, w') \<Rightarrow> (Some e, w')
               | (None, w') \<Rightarrow> process_whiteouts ops ms w')
         else process_whiteouts ops ms w)"

subsection \<open>Command line and image archive\<close>

text \<open>
  The parsed arguments that decide anything after the archive is open. \<^verbatim>\<open>args.layer\<close>
  and \<^verbatim>\<open>args.image\<close> are \<^verbatim>\<open>None\<close> when not given. (\<^verbatim>\<open>--archive\<close> and the log level
  select the input and the verbosity only.)
\<close>

record args =
  arg_ignore_errors :: bool
  arg_output :: string
  arg_layers :: bool
  arg_list :: bool
  arg_layer :: "string list option"
  arg_no_whiteouts :: bool
  arg_image :: "string option"

text \<open>
  The outer archive: the decoded \<^verbatim>\<open>repositories\<close> document (a JSON object of JSON
  objects, as association lists in document order, keys distinct), the documents
  \<^verbatim>\<open><id>/json\<close> and the members of the archives \<^verbatim>\<open><id>/layer.tar\<close>. A name the
  archive does not have makes \<^verbatim>\<open>extractfile\<close> raise \<^verbatim>\<open>KeyError\<close>.
\<close>

type_synonym repos = "(string \<times> (string \<times> string) list) list"

record image_archive =
  img_repositories :: "repos option"
  img_json :: layer_json
  img_layer_tar :: "string \<rightharpoonup> tarinfo list"

subsection \<open>Resolving the image (lines 151 to 169 of \<^verbatim>\<open>main\<close>)\<close>

text \<open>
  The result is the list of messages given to \<^verbatim>\<open>LOG.error\<close> and either the exception
  that leaves \<^verbatim>\<open>main\<close> or the triple \<^verbatim>\<open>(name, tag, top)\<close>. \<^verbatim>\<open>sys.exit(1)\<close> is
  \<open>SystemExit 1\<close>; any other exception is uncaught.

  Lines 151 to 157: \<^verbatim>\<open>not args.image\<close> holds for \<^verbatim>\<open>None\<close> and for the empty string.
\<close>

definition no_image :: "repos \<Rightarrow> string list \<times> (py_exn + string)" where
  "no_image repos =
     (if length repos = 1 then ([], Inr (fst (hd repos)))
      else ([''No image name specified and multiple images contained in archive''],
            Inl (SystemExit 1)))"

definition default_image :: "repos \<Rightarrow> string option \<Rightarrow> string list \<times> (py_exn + string)" where
  "default_image repos image_opt =
     (case image_opt of
        None \<Rightarrow> no_image repos
      | Some ref \<Rightarrow> (if ref = [] then no_image repos else ([], Inr ref)))"

text \<open>
  Lines 158 to 161: with no colon the unpacking raises \<^verbatim>\<open>ValueError\<close>, and the handler
  looks the whole reference up in \<^verbatim>\<open>repos\<close> and takes the first tag; that lookup and
  \<^verbatim>\<open>next\<close> are outside every \<^verbatim>\<open>try\<close> that catches their exceptions.
\<close>

definition name_and_tag :: "repos \<Rightarrow> string \<Rightarrow> py_exn + (string \<times> string)" where
  "name_and_tag repos ref =
     (case split_colon ref of
        Some (n, t) \<Rightarrow> Inr (n, t)
      | None \<Rightarrow>
          (case map_of repos ref of
             None \<Rightarrow> Inl (KeyError ref)
           | Some tags \<Rightarrow>
               (case tags of
                  [] \<Rightarrow> Inl StopIteration
                | (t, _) # _ \<Rightarrow> Inr (ref, t))))"

text \<open>Lines 163 to 169.\<close>

definition lookup_top :: "repos \<Rightarrow> string \<Rightarrow> string \<Rightarrow> string list \<times> (py_exn + string)" where
  "lookup_top repos n t =
     (case Option.bind (map_of repos n) (\<lambda>tags. map_of tags t) of
        Some top_id \<Rightarrow> ([], Inr top_id)
      | None \<Rightarrow>
          ([''failed to find image '' @ n @ '' with tag '' @ t], Inl (SystemExit 1)))"

definition resolve_image ::
  "repos \<Rightarrow> string option \<Rightarrow> string list \<times> (py_exn + (string \<times> string \<times> string))"
where
  "resolve_image repos image_opt =
     (case default_image repos image_opt of
        (log, Inl e) \<Rightarrow> (log, Inl e)
      | (log, Inr ref) \<Rightarrow>
          (case name_and_tag repos ref of
             Inl e \<Rightarrow> (log, Inl e)
           | Inr (n, t) \<Rightarrow>
               (case lookup_top repos n t of
                  (log', Inl e) \<Rightarrow> (log @ log', Inl e)
                | (log', Inr top_id) \<Rightarrow> (log @ log', Inr (n, t, top_id)))))"

text \<open>
  The outcome that the specification calls \<open>ImageNotFound\<close>: the error
  \<^verbatim>\<open>failed to find image ... with tag ...\<close> is logged and the process exits with status 1.
\<close>

definition is_image_not_found :: "string list \<times> (py_exn + 'a) \<Rightarrow> bool" where
  "is_image_not_found r =
     (snd r = Inl (SystemExit 1) \<and> list_ex (prefix ''failed to find image '') (fst r))"

subsection \<open>Extracting the layers (lines 181 to 206 of \<^verbatim>\<open>main\<close>)\<close>

text \<open>
  \<^verbatim>\<open>errorlevel=(0 if args.ignore_errors else 1)\<close>, the only value the program ever
  gives to a layer's archive object.
\<close>

definition layer_errorlevel :: "args \<Rightarrow> int" where
  "layer_errorlevel a = (if arg_ignore_errors a then 0 else 1)"

text \<open>
  The body of the loop for one layer that is not skipped: open \<^verbatim>\<open><id>/layer.tar\<close>,
  \<^verbatim>\<open>extractall(path=args.output)\<close>, then the whiteouts over \<^verbatim>\<open>layer.getmembers()\<close>,
  which is the store that \<^verbatim>\<open>extractall\<close> left.
\<close>

definition extract_layer ::
  "'w os_ops \<Rightarrow> args \<Rightarrow> image_archive \<Rightarrow> string \<Rightarrow> 'w \<Rightarrow> py_exn option \<times> 'w"
where
  "extract_layer ops a img lid w =
     (case img_layer_tar img lid of
        None \<Rightarrow> (Some (KeyError (lid @ ''/layer.tar'')), w)
      | Some members \<Rightarrow>
          (case extractall ops (layer_errorlevel a) (arg_output a) None False members w of
             (Some e, members', w') \<Rightarrow> (Some e, w')
           | (None, members', w') \<Rightarrow>
               (if \<not> arg_no_whiteouts a then process_whiteouts ops members' w'
                else (None, w'))))"

text \<open>
  The loop over the ids that are not skipped, that is over
  \<open>extraction_order (arg_layer a) layers\<close>.
\<close>

fun extract_layers ::
  "'w os_ops \<Rightarrow> args \<Rightarrow> image_archive \<Rightarrow> string list \<Rightarrow> 'w \<Rightarrow> py_exn option \<times> 'w"
where
  "extract_layers ops a img [] w = (None, w)"
| "extract_layers ops a img (lid # lids) w =
     (case extract_layer ops a img lid w of
        (Some e, w') \<Rightarrow> (Some e, w')
      | (None, w') \<Rightarrow> extract_layers ops a img lids w')"

subsection \<open>\<^verbatim>\<open>main\<close>\<close>

text \<open>
  What a run leaves: the exception that ends it (\<open>None\<close> when \<^verbatim>\<open>main\<close> returns; the
  exit status is that of \<open>SystemExit\<close>, and 1 for any other exception), the strings
  printed, the messages given to \<^verbatim>\<open>LOG.error\<close>, and the world.
\<close>

record 'w outcome =
  raised :: "py_exn option"
  printed :: "string list"
  errors :: "string list"
  world :: 'w

definition list_line :: "string \<times> (string \<times> string) list \<Rightarrow> string" where
  "list_line r = fst r @ '': '' @ str_join '' '' (map fst (snd r))"

definition main_extract :: "'w os_ops \<Rightarrow> args \<Rightarrow> image_archive \<Rightarrow> string list \<Rightarrow> 'w \<Rightarrow> 'w outcome" where
  "main_extract ops a img layers w =
     (if arg_layers a
      then \<lparr>raised = Some (SystemExit 0), printed = [str_join [CHR 0x0A] (rev layers)],
            errors = [], world = w\<rparr>
      else
        (case (if \<not> os_path_isdir ops (arg_output a) w then mkdir ops (arg_output a) w
               else (None, w)) of
           (Some e, w') \<Rightarrow> \<lparr>raised = Some e, printed = [], errors = [], world = w'\<rparr>
         | (None, w') \<Rightarrow>
             (case extract_layers ops a img (extraction_order (arg_layer a) layers) w' of
                (r, w'') \<Rightarrow> \<lparr>raised = r, printed = [], errors = [], world = w''\<rparr>)))"

text \<open>
  \<^verbatim>\<open>main\<close> after the arguments are parsed and the archive is open. \<open>None\<close>: the run
  does not end, because \<open>find_layers\<close> does not return.
\<close>

definition main :: "'w os_ops \<Rightarrow> args \<Rightarrow> image_archive \<Rightarrow> 'w \<Rightarrow> 'w outcome option" where
  "main ops a img w =
     (case img_repositories img of
        None \<Rightarrow>
          Some \<lparr>raised = Some (KeyError ''repositories''), printed = [], errors = [], world = w\<rparr>
      | Some repos \<Rightarrow>
          (if arg_list a
           then Some \<lparr>raised = Some (SystemExit 0), printed = map list_line repos,
                      errors = [], world = w\<rparr>
           else
             (case resolve_image repos (arg_image a) of
                (log, Inl e) \<Rightarrow>
                  Some \<lparr>raised = Some e, printed = [], errors = log, world = w\<rparr>
              | (log, Inr (n, t, top_id)) \<Rightarrow>
                  (case find_layers (img_json img) top_id of
                     None \<Rightarrow> None
                   | Some (Inl e) \<Rightarrow>
                       Some \<lparr>raised = Some e, printed = [], errors = log, world = w\<rparr>
                   | Some (Inr layers) \<Rightarrow>
                       Some ((main_extract ops a img layers w)\<lparr>errors := log\<rparr>)))))"

subsection \<open>A world that records the calls\<close>

text \<open>
  To speak about which calls a run makes, in which order and with which arguments, the
  world can be the history of the calls made so far. Whether a call raises is decided by
  an arbitrary function of the history and the call, so every deterministic behaviour of
  the library and the operating system is covered.
\<close>

datatype call =
    Extract int tarinfo string bool bool
  | Chown tarinfo string bool
  | Utime tarinfo string
  | Chmod tarinfo string
  | Dbg nat string
  | Unlink string
  | Mkdir string

definition observe ::
  "(call list \<Rightarrow> call \<Rightarrow> py_exn option) \<Rightarrow> call \<Rightarrow> call list \<Rightarrow> py_exn option \<times> call list"
where
  "observe respond c h = (respond h c, h @ [c])"

definition rec_ops ::
  "(call list \<Rightarrow> call \<Rightarrow> py_exn option) \<Rightarrow> (call list \<Rightarrow> string \<Rightarrow> bool) \<Rightarrow> call list os_ops"
where
  "rec_ops respond dirs =
     \<lparr>tf_extract = (\<lambda>lvl t p sa no. observe respond (Extract lvl t p sa no)),
      chown = (\<lambda>t p no. observe respond (Chown t p no)),
      utime = (\<lambda>t p. observe respond (Utime t p)),
      chmod = (\<lambda>t p. observe respond (Chmod t p)),
      dbg = (\<lambda>n msg h. h @ [Dbg n msg]),
      unlink = (\<lambda>p. observe respond (Unlink p)),
      os_path_isdir = (\<lambda>p h. dirs h p),
      mkdir = (\<lambda>p. observe respond (Mkdir p))\<rparr>"

text \<open>
  The entry name of an attribute call (\<^verbatim>\<open>chown\<close>, \<^verbatim>\<open>utime\<close>, \<^verbatim>\<open>chmod\<close>), \<open>None\<close> for
  any other call.
\<close>

fun attr_call_name :: "call \<Rightarrow> string option" where
  "attr_call_name (Chown t p no) = Some (name t)"
| "attr_call_name (Utime t p) = Some (name t)"
| "attr_call_name (Chmod t p) = Some (name t)"
| "attr_call_name _ = None"

subsection \<open>A small simulated file system\<close>

text \<open>
  For concrete runs: a file system as a map from the path string to a node. A node is a
  file or a directory, has permission bits, and either belongs to the user who runs the
  program or not (then its attributes cannot be changed). Paths are compared as strings,
  so the runs below spell every file in one way only. The library is simulated as far as
  the runs need it: a directory is created with mode \<^verbatim>\<open>0o700\<close> unless it exists, a file
  is written with its recorded mode, attribute calls fail with \<^verbatim>\<open>ExtractError\<close> on a
  missing or foreign node, \<^verbatim>\<open>unlink\<close> fails with \<^verbatim>\<open>ENOENT\<close> on a missing path and with
  \<^verbatim>\<open>EISDIR\<close> on a directory, and \<^verbatim>\<open>_dbg\<close> prints nothing (the debug level is 0).
\<close>

datatype node_kind = File | Dir

record node =
  kind :: node_kind
  perm :: int
  owned :: bool

type_synonym sim_fs = "string \<rightharpoonup> node"

definition EEXIST :: int where
  "EEXIST = 17"

definition EISDIR :: int where
  "EISDIR = 21"

definition sim_fatal :: "int \<Rightarrow> py_exn \<Rightarrow> sim_fs \<Rightarrow> py_exn option \<times> sim_fs" where
  "sim_fatal lvl e fs = (if lvl > 0 then (Some e, fs) else (None, fs))"

definition sim_extract ::
  "int \<Rightarrow> tarinfo \<Rightarrow> string \<Rightarrow> bool \<Rightarrow> bool \<Rightarrow> sim_fs \<Rightarrow> py_exn option \<times> sim_fs"
where
  "sim_extract lvl t p set_attrs numeric_owner fs =
     (let target = os_path_join p (name t)
      in if isdir t
         then (case fs target of
                 None \<Rightarrow> (None, fs(target \<mapsto> \<lparr>kind = Dir, perm = 448, owned = True\<rparr>))
               | Some n \<Rightarrow>
                   (if kind n = Dir then (None, fs) else sim_fatal lvl (OSError EEXIST) fs))
         else (case fs target of
                 None \<Rightarrow> (None, fs(target \<mapsto> \<lparr>kind = File, perm = mode t, owned = True\<rparr>))
               | Some n \<Rightarrow>
                   (if kind n = Dir then sim_fatal lvl (OSError EISDIR) fs
                    else (None, fs(target \<mapsto> \<lparr>kind = File, perm = mode t, owned = True\<rparr>)))))"

definition sim_attr :: "string \<Rightarrow> (node \<Rightarrow> node) \<Rightarrow> string \<Rightarrow> sim_fs \<Rightarrow> py_exn option \<times> sim_fs" where
  "sim_attr msg f p fs =
     (case fs p of
        None \<Rightarrow> (Some (ExtractError msg), fs)
      | Some n \<Rightarrow> (if owned n then (None, fs(p \<mapsto> f n)) else (Some (ExtractError msg), fs)))"

definition sim_unlink :: "string \<Rightarrow> sim_fs \<Rightarrow> py_exn option \<times> sim_fs" where
  "sim_unlink p fs =
     (case fs p of
        None \<Rightarrow> (Some (OSError ENOENT), fs)
      | Some n \<Rightarrow> (if kind n = Dir then (Some (OSError EISDIR), fs) else (None, fs(p := None))))"

definition sim_isdir :: "string \<Rightarrow> sim_fs \<Rightarrow> bool" where
  "sim_isdir p fs = (case fs p of None \<Rightarrow> False | Some n \<Rightarrow> kind n = Dir)"

definition sim_mkdir :: "string \<Rightarrow> sim_fs \<Rightarrow> py_exn option \<times> sim_fs" where
  "sim_mkdir p fs =
     (case fs p of
        None \<Rightarrow> (None, fs(p \<mapsto> \<lparr>kind = Dir, perm = 493, owned = True\<rparr>))
      | Some n \<Rightarrow> (Some (OSError EEXIST), fs))"

definition sim_ops :: "sim_fs os_ops" where
  "sim_ops =
     \<lparr>tf_extract = sim_extract,
      chown = (\<lambda>t p no. sim_attr ''could not change owner'' (\<lambda>n. n) p),
      utime = (\<lambda>t p. sim_attr ''could not change modification time'' (\<lambda>n. n) p),
      chmod = (\<lambda>t p. sim_attr ''could not change mode'' (\<lambda>n. n\<lparr>perm := mode t\<rparr>) p),
      dbg = (\<lambda>n msg fs. fs),
      unlink = sim_unlink,
      os_path_isdir = sim_isdir,
      mkdir = sim_mkdir\<rparr>"

subsection \<open>Notions used to state the properties\<close>

text \<open>
  Lines 62 and 63 as a function of the recorded mode: the mode that the second loop hands
  to \<^verbatim>\<open>chmod\<close>.
\<close>

definition final_mode :: "int \<Rightarrow> int" where
  "final_mode m = (if m AND DIRECTORY_MODE \<noteq> 0 then m OR OWNER_WRITE else m)"

text \<open>
  How an entry object may differ from the entry as read: not at all, or, for a directory
  whose mode has the directory bit, by the assignment of line 63.
\<close>

definition entry_rel :: "tarinfo \<Rightarrow> tarinfo \<Rightarrow> bool" where
  "entry_rel t0 t =
     (t = t0 \<or>
      (isdir t0 \<and> mode t0 AND DIRECTORY_MODE \<noteq> 0 \<and> t = t0\<lparr>mode := mode t0 OR OWNER_WRITE\<rparr>))"

text \<open>
  The calls that the second loop makes for the entry read as \<open>t0\<close>, with directory
  path \<open>dp\<close>.
\<close>

definition post_call :: "tarinfo \<Rightarrow> string \<Rightarrow> bool \<Rightarrow> call \<Rightarrow> bool" where
  "post_call t0 dp no c =
     (case c of
        Chown t p n \<Rightarrow> entry_rel t0 t \<and> p = dp \<and> n = no
      | Utime t p \<Rightarrow> entry_rel t0 t \<and> p = dp
      | Chmod t p \<Rightarrow> t = t0\<lparr>mode := final_mode (mode t0)\<rparr> \<and> p = dp
      | Dbg l msg \<Rightarrow> l = 1
      | _ \<Rightarrow> False)"

subsection \<open>Concrete inputs\<close>


definition app_repos :: repos where
  "app_repos = [(''app'', [(''v1'', ''L3'')])]"



text \<open>
  Directory entries whose mode field carries the directory bit: \<^verbatim>\<open>0o40700\<close>,
  \<^verbatim>\<open>0o40555\<close> and \<^verbatim>\<open>0o40755\<close>.
\<close>

definition dir_entry :: "string \<Rightarrow> int \<Rightarrow> tarinfo" where
  "dir_entry n m =
     \<lparr>name = n, mode = m, tartype = DIRTYPE, uid = 0, gid = 0, mtime = 0, linkname = []\<rparr>"

definition file_entry :: "string \<Rightarrow> int \<Rightarrow> tarinfo" where
  "file_entry n m =
     \<lparr>name = n, mode = m, tartype = REGTYPE, uid = 0, gid = 0, mtime = 0, linkname = []\<rparr>"

text \<open>A recording world in which no call raises and every path is a directory.\<close>

definition quiet :: "call list \<Rightarrow> call \<Rightarrow> py_exn option" where
  "quiet h c = None"

definition quiet_ops :: "call list os_ops" where
  "quiet_ops = rec_ops quiet (\<lambda>h p. True)"


definition private_dir_layer :: "tarinfo list" where
  "private_dir_layer = [dir_entry ''etc'' 16832]"  \<comment> \<open>\<^verbatim>\<open>0o40700\<close>\<close>

definition nested_dirs_layer :: "tarinfo list" where
  "nested_dirs_layer = [dir_entry ''a'' 16877, dir_entry ''a/b'' 16877]"  \<comment> \<open>\<^verbatim>\<open>0o40755\<close>\<close>

definition var_dir_layer :: "tarinfo list" where
  "var_dir_layer = [dir_entry ''var'' 16877]"

definition mixed_layer :: "tarinfo list" where
  "mixed_layer = [file_entry ''f'' 420, dir_entry ''var'' 16877]"

text \<open>A simulated file system that holds only the output directory \<^verbatim>\<open>out\<close>.\<close>

definition out_fs :: sim_fs where
  "out_fs = [''out'' \<mapsto> \<lparr>kind = Dir, perm = 493, owned = True\<rparr>]"

text \<open>
  Command lines: \<^verbatim>\<open>undocker3 -o out app:v1\<close>, the same with \<^verbatim>\<open>--ignore-errors\<close>, and
  \<^verbatim>\<open>undocker3 -o out web\<close>.
\<close>

definition out_args :: args where
  "out_args =
     \<lparr>arg_ignore_errors = False, arg_output = ''out'', arg_layers = False, arg_list = False,
      arg_layer = None, arg_no_whiteouts = False, arg_image = Some ''app:v1''\<rparr>"

definition out_args_ignore :: args where
  "out_args_ignore = out_args\<lparr>arg_ignore_errors := True\<rparr>"

definition web_args :: args where
  "web_args = out_args\<lparr>arg_image := Some ''web''\<rparr>"

text \<open>
  An image of one layer that holds the directory \<^verbatim>\<open>etc\<close>, and an output tree in which
  \<^verbatim>\<open>out/etc\<close> exists and belongs to another user.
\<close>

definition etc_image :: image_archive where
  "etc_image =
     \<lparr>img_repositories = Some [(''app'', [(''v1'', ''L1'')])],
      img_json = [''L1'' \<mapsto> \<lparr>parent = None\<rparr>],
      img_layer_tar = [''L1'' \<mapsto> [dir_entry ''etc'' 16877]]\<rparr>"

definition foreign_etc_fs :: sim_fs where
  "foreign_etc_fs =
     [''out'' \<mapsto> \<lparr>kind = Dir, perm = 493, owned = True\<rparr>,
      ''out/etc'' \<mapsto> \<lparr>kind = Dir, perm = 493, owned = False\<rparr>]"

text \<open>
  An image of two layers: the base layer L1 holds the file \<^verbatim>\<open>config\<close>, the layer L2 on
  top of it holds the whiteout marker \<^verbatim>\<open>.wh.config\<close>.
\<close>

definition whiteout_image :: image_archive where
  "whiteout_image =
     \<lparr>img_repositories = Some [(''app'', [(''v1'', ''L2'')])],
      img_json = [''L2'' \<mapsto> \<lparr>parent = Some ''L1''\<rparr>, ''L1'' \<mapsto> \<lparr>parent = None\<rparr>],
      img_layer_tar =
        [''L1'' \<mapsto> [file_entry ''config'' 420], ''L2'' \<mapsto> [file_entry ''.wh.config'' 420]]\<rparr>"

text \<open>
  A current directory in which \<^verbatim>\<open>.wh.config\<close> is a directory, beside the output
  directory \<^verbatim>\<open>out\<close>.
\<close>

definition marker_dir_fs :: sim_fs where
  "marker_dir_fs =
     [''out'' \<mapsto> \<lparr>kind = Dir, perm = 493, owned = True\<rparr>,
      ''.wh.config'' \<mapsto> \<lparr>kind = Dir, perm = 493, owned = True\<rparr>]"

definition config_marker :: tarinfo where
  "config_marker = file_entry ''.wh.config'' 420"

definition marker_node :: node where
  "marker_node = \<lparr>kind = File, perm = 420, owned = True\<rparr>"

section \<open>Properties\<close>

subsection \<open>The chain walk\<close>







text \<open>Conversely, a list that the walk returns is the parent-linked chain from its start.\<close>

lemma find_layers_is_chain:
  assumes "find_layers img lid = Some r"
  shows "\<forall>ids. r = Inr ids \<longrightarrow> is_chain img ids \<and> hd ids = lid"
  apply (rule find_layers.raw_induct
      [where P = "\<lambda>img lid r. \<forall>ids. r = Inr ids \<longrightarrow> is_chain img ids \<and> hd ids = lid",
       OF _ assms])
  subgoal premises prems for f img' lid' r'
  proof (cases "img' lid'")
    case None
    with prems(2) show ?thesis by auto
  next
    case outer: (Some info)
    show ?thesis
    proof (cases "parent info")
      case None
      with prems(2) outer show ?thesis by auto
    next
      case (Some pid)
      with prems(2) outer obtain r'' where
        sub: "f img' pid = Some r''"
        and r': "(case r'' of Inl e \<Rightarrow> Some (Inl e) | Inr layers \<Rightarrow> Some (Inr (lid' # layers)))
                 = Some r'"
        by (auto simp: bind_eq_Some_conv)
      show ?thesis
      proof (intro allI impI)
        fix ids assume "r' = Inr ids"
        with r' obtain layers where l: "r'' = Inr layers" "ids = lid' # layers"
          by (cases r'') auto
        from prems(1)[OF sub] l(1) have c: "is_chain img' layers" "hd layers = pid" by auto
        then obtain y ys where "layers = y # ys" by (cases layers) auto
        with c l(2) Some outer show "is_chain img' ids \<and> hd ids = lid'" by auto
      qed
    qed
  qed
  done

text \<open>A parent-linked chain never repeats an id: it is acyclic.\<close>

lemma is_chain_tl:
  "is_chain img (x # y # ys) \<Longrightarrow> is_chain img (y # ys)"
  by (auto split: option.splits)








subsection \<open>The member store under \<^verbatim>\<open>extractall\<close>\<close>

lemma or_OWNER_WRITE_idem: "(m OR OWNER_WRITE) OR OWNER_WRITE = m OR OWNER_WRITE"
  by (simp add: or.assoc)

lemma dirbit_or_OWNER_WRITE: "(m OR OWNER_WRITE) AND DIRECTORY_MODE = m AND DIRECTORY_MODE"
  by (simp add: OWNER_WRITE_def DIRECTORY_MODE_def bit.conj_disj_distrib2)

lemma and_or_absorb: "(m AND k) OR k = (k::int)"
  by (rule bit_eqI) (auto simp: bit_and_iff bit_or_iff)


lemma other_write_forced: "(m OR OWNER_WRITE) AND S_IWOTH = S_IWOTH"
  by (simp add: OWNER_WRITE_def S_IWOTH_def bit.conj_disj_distrib2 and_or_absorb)

lemma try_set_attrs_store:
  "try_set_attrs ops path no ms i w = (r, ms', w') \<Longrightarrow>
   ms' = ms \<or>
   (mode (ms ! i) AND DIRECTORY_MODE \<noteq> 0 \<and>
    ms' = ms[i := (ms ! i)\<lparr>mode := mode (ms ! i) OR OWNER_WRITE\<rparr>])"
  by (auto simp: try_set_attrs_def Let_def split: prod.splits option.splits if_splits)

lemma set_dir_attrs_store:
  "set_dir_attrs ops lvl path no ms i w = (r, ms', w') \<Longrightarrow>
   ms' = ms \<or>
   (mode (ms ! i) AND DIRECTORY_MODE \<noteq> 0 \<and>
    ms' = ms[i := (ms ! i)\<lparr>mode := mode (ms ! i) OR OWNER_WRITE\<rparr>])"
  unfolding set_dir_attrs_def
  by (auto split: prod.splits option.splits py_exn.splits if_splits dest: try_set_attrs_store)

lemma entry_rel_force:
  assumes "entry_rel t0 t" and "isdir t0" and "mode t AND DIRECTORY_MODE \<noteq> 0"
  shows "entry_rel t0 (t\<lparr>mode := mode t OR OWNER_WRITE\<rparr>)"
  using assms
  by (auto simp: entry_rel_def or_OWNER_WRITE_idem dirbit_or_OWNER_WRITE)

lemma store_rel_update:
  assumes "list_all2 entry_rel orig ms"
    and "i < length orig \<Longrightarrow> isdir (orig ! i)"
    and "mode (ms ! i) AND DIRECTORY_MODE \<noteq> 0"
  shows "list_all2 entry_rel orig (ms[i := (ms ! i)\<lparr>mode := mode (ms ! i) OR OWNER_WRITE\<rparr>])"
proof (cases "i < length orig")
  case True
  with assms(1) have "entry_rel (orig ! i) (ms ! i)"
    by (simp add: list_all2_nthD)
  from entry_rel_force[OF this assms(2)[OF True] assms(3)]
  have "entry_rel (orig ! i) ((ms ! i)\<lparr>mode := mode (ms ! i) OR OWNER_WRITE\<rparr>)" .
  with assms(1) have "list_all2 entry_rel (orig[i := orig ! i])
      (ms[i := (ms ! i)\<lparr>mode := mode (ms ! i) OR OWNER_WRITE\<rparr>])"
    by (rule list_all2_update_cong)
  then show ?thesis by simp
next
  case False
  with assms(1) have "length ms \<le> i" by (simp add: list_all2_lengthD)
  then show ?thesis using assms(1) by (simp add: list_update_beyond)
qed

lemma set_attrs_loop_store:
  assumes "set_attrs_loop ops lvl path no ms is w = (r, ms', w')"
    and "list_all2 entry_rel orig ms"
    and "\<And>i. i \<in> set is \<Longrightarrow> i < length orig \<Longrightarrow> isdir (orig ! i)"
  shows "list_all2 entry_rel orig ms'"
  using assms
proof (induction "is" arbitrary: ms w)
  case Nil
  then show ?case by simp
next
  case (Cons i "is")
  obtain r1 ms1 w1 where step: "set_dir_attrs ops lvl path no ms i w = (r1, ms1, w1)"
    by (cases "set_dir_attrs ops lvl path no ms i w") auto
  have rel1: "list_all2 entry_rel orig ms1"
    using set_dir_attrs_store[OF step] Cons.prems(2) store_rel_update[OF Cons.prems(2)]
      Cons.prems(3)[of i]
    by auto
  show ?case
  proof (cases r1)
    case None
    with step Cons.prems(1) have "set_attrs_loop ops lvl path no ms1 is w1 = (r, ms', w')"
      by simp
    from Cons.IH[OF this rel1] Cons.prems(3) show ?thesis by simp
  next
    case (Some e)
    with step Cons.prems(1) have "ms' = ms1" by simp
    with rel1 show ?thesis by simp
  qed
qed

lemma extract_loop_directories:
  "extract_loop ops lvl path no members is ds w = (r, ds', w') \<Longrightarrow>
   set ds' \<subseteq> set ds \<union> {i \<in> set is. isdir (members ! i)}"
proof (induction "is" arbitrary: ds w)
  case Nil
  then show ?case by simp
next
  case (Cons i "is")
  let ?ds1 = "if isdir (members ! i) then ds @ [i] else ds"
  let ?t = "if isdir (members ! i) then (members ! i)\<lparr>mode := OWNER_READ_WRITE\<rparr>
            else members ! i"
  obtain r1 w1 where ext: "tf_extract ops lvl ?t path (\<not> isdir ?t) no w = (r1, w1)"
    by (cases "tf_extract ops lvl ?t path (\<not> isdir ?t) no w") auto
  have ds1: "set ?ds1 \<subseteq> set ds \<union> {j \<in> set (i # is). isdir (members ! j)}"
    by auto
  show ?case
  proof (cases r1)
    case (Some e)
    with ext Cons.prems have "ds' = ?ds1" by (simp add: Let_def)
    with ds1 show ?thesis by simp
  next
    case None
    with ext Cons.prems have "extract_loop ops lvl path no members is ?ds1 w1 = (r, ds', w')"
      by (simp add: Let_def)
    from Cons.IH[OF this] ds1 show ?thesis by auto
  qed
qed

lemma set_reverse_sorted: "set (reverse_sorted members ds) = set ds"
  by (simp add: reverse_sorted_def)

lemma entry_rel_refl: "list_all2 entry_rel ms ms"
  by (simp add: list_all2_same entry_rel_def)

lemma extractall_store:
  assumes "extractall ops lvl path sel no members w = (r, members', w')"
  shows "list_all2 entry_rel members members'"
proof -
  let ?is = "case sel of None \<Rightarrow> [0..<length members] | Some is \<Rightarrow> is"
  obtain r1 ds w1 where ext: "extract_loop ops lvl path no members ?is [] w = (r1, ds, w1)"
    by (cases "extract_loop ops lvl path no members ?is [] w") auto
  show ?thesis
  proof (cases r1)
    case (Some e)
    with ext assms have "members' = members" by (simp add: extractall_def)
    then show ?thesis by (simp add: entry_rel_refl)
  next
    case None
    with ext assms have loop:
      "set_attrs_loop ops lvl path no members (reverse_sorted members ds) w1 = (r, members', w')"
      by (simp add: extractall_def)
    have "\<And>i. i \<in> set (reverse_sorted members ds) \<Longrightarrow> isdir (members ! i)"
      using extract_loop_directories[OF ext] by (auto simp: set_reverse_sorted)
    with set_attrs_loop_store[OF loop entry_rel_refl] show ?thesis by blast
  qed
qed

subsection \<open>The calls of \<^verbatim>\<open>extractall\<close> in a recording world\<close>

lemma entry_rel_same: "entry_rel t t"
  by (simp add: entry_rel_def)

lemma entry_rel_trans: "entry_rel a b \<Longrightarrow> entry_rel b c \<Longrightarrow> entry_rel a c"
  by (auto simp: entry_rel_def isdir_def or_OWNER_WRITE_idem dirbit_or_OWNER_WRITE)

lemma rec_try_set_attrs:
  assumes "try_set_attrs (rec_ops rs d) path no ms i h = (r, ms', h')" and "i < length ms"
  shows "\<exists>new. h' = h @ new \<and>
           (\<forall>c\<in>set new. post_call (ms ! i) (os_path_join path (name (ms ! i))) no c)"
  using assms
  by (auto simp: try_set_attrs_def rec_ops_def observe_def Let_def post_call_def final_mode_def
      entry_rel_same split: prod.splits option.splits if_splits)

lemma rec_set_dir_attrs:
  assumes "set_dir_attrs (rec_ops rs d) lvl path no ms i h = (r, ms', h')" and "i < length ms"
  shows "\<exists>new. h' = h @ new \<and>
           (\<forall>c\<in>set new. post_call (ms ! i) (os_path_join path (name (ms ! i))) no c)"
proof -
  obtain r1 ms1 h1 where t: "try_set_attrs (rec_ops rs d) path no ms i h = (r1, ms1, h1)"
    by (cases "try_set_attrs (rec_ops rs d) path no ms i h") auto
  from rec_try_set_attrs[OF t assms(2)] obtain new where
    new: "h1 = h @ new"
      "\<forall>c\<in>set new. post_call (ms ! i) (os_path_join path (name (ms ! i))) no c"
    by blast
  have "h' = h1 \<or> (\<exists>msg. h' = h1 @ [Dbg 1 msg])"
    using assms(1) t
    by (auto simp: set_dir_attrs_def rec_ops_def split: option.splits py_exn.splits if_splits)
  then show ?thesis
  proof
    assume "h' = h1"
    with new show ?thesis by blast
  next
    assume "\<exists>msg. h' = h1 @ [Dbg 1 msg]"
    then obtain msg where "h' = h @ (new @ [Dbg 1 msg])" using new(1) by auto
    moreover have "\<forall>c\<in>set (new @ [Dbg 1 msg]).
        post_call (ms ! i) (os_path_join path (name (ms ! i))) no c"
      using new(2) by (auto simp: post_call_def)
    ultimately show ?thesis by blast
  qed
qed

lemma entry_rel_final:
  "entry_rel t0 t \<Longrightarrow> t\<lparr>mode := final_mode (mode t)\<rparr> = t0\<lparr>mode := final_mode (mode t0)\<rparr>"
  by (auto simp: entry_rel_def final_mode_def or_OWNER_WRITE_idem dirbit_or_OWNER_WRITE)

lemma entry_rel_name: "entry_rel t0 t \<Longrightarrow> name t = name t0"
  by (auto simp: entry_rel_def)

text \<open>The calls of the second loop, in terms of the entries as read.\<close>

lemma rec_set_attrs_loop:
  assumes "set_attrs_loop (rec_ops rs d) lvl path no ms is h = (r, ms', h')"
    and "list_all2 entry_rel orig ms"
    and "\<And>i. i \<in> set is \<Longrightarrow> i < length orig \<and> isdir (orig ! i)"
  shows "\<exists>new. h' = h @ new \<and>
           (\<forall>c\<in>set new. \<exists>i\<in>set is.
               post_call (orig ! i) (os_path_join path (name (orig ! i))) no c)"
  using assms
proof (induction "is" arbitrary: ms h)
  case Nil
  then show ?case by simp
next
  case (Cons i "is")
  obtain r1 ms1 h1 where step: "set_dir_attrs (rec_ops rs d) lvl path no ms i h = (r1, ms1, h1)"
    by (cases "set_dir_attrs (rec_ops rs d) lvl path no ms i h") auto
  have i: "i < length orig" "isdir (orig ! i)" using Cons.prems(3)[of i] by auto
  then have ims: "i < length ms" using Cons.prems(2) by (simp add: list_all2_lengthD)
  have reli: "entry_rel (orig ! i) (ms ! i)"
    using Cons.prems(2) i(1) by (simp add: list_all2_nthD)
  from rec_set_dir_attrs[OF step ims] obtain new1 where
    new1: "h1 = h @ new1"
      "\<forall>c\<in>set new1. post_call (ms ! i) (os_path_join path (name (ms ! i))) no c"
    by blast
  have new1': "\<forall>c\<in>set new1. post_call (orig ! i) (os_path_join path (name (orig ! i))) no c"
    using new1(2) entry_rel_final[OF reli] entry_rel_name[OF reli] entry_rel_trans[OF reli]
    by (auto simp: post_call_def split: call.splits)
  have rel1: "list_all2 entry_rel orig ms1"
    using set_dir_attrs_store[OF step] Cons.prems(2) store_rel_update[OF Cons.prems(2)] i
    by auto
  show ?case
  proof (cases r1)
    case (Some e)
    with step Cons.prems(1) have "h' = h1" by simp
    with new1(1) new1' show ?thesis by auto
  next
    case None
    with step Cons.prems(1) have
      "set_attrs_loop (rec_ops rs d) lvl path no ms1 is h1 = (r, ms', h')" by simp
    from Cons.IH[OF this rel1] Cons.prems(3) obtain new2 where
      new2: "h' = h1 @ new2"
        "\<forall>c\<in>set new2. \<exists>j\<in>set is.
            post_call (orig ! j) (os_path_join path (name (orig ! j))) no c"
      by auto
    have "h' = h @ (new1 @ new2)" using new1(1) new2(1) by simp
    moreover have "\<forall>c\<in>set (new1 @ new2). \<exists>j\<in>set (i # is).
        post_call (orig ! j) (os_path_join path (name (orig ! j))) no c"
      using new1' new2(2) by auto
    ultimately show ?thesis by blast
  qed
qed

lemma rec_extract_loop:
  "extract_loop (rec_ops rs d) lvl path no members is ds h = (r, ds', h') \<Longrightarrow>
   \<exists>new. h' = h @ new \<and> (\<forall>c\<in>set new. \<exists>l t p a b. c = Extract l t p a b)"
proof (induction "is" arbitrary: ds h)
  case Nil
  then show ?case by simp
next
  case (Cons i "is")
  let ?ds1 = "if isdir (members ! i) then ds @ [i] else ds"
  let ?t = "if isdir (members ! i) then (members ! i)\<lparr>mode := OWNER_READ_WRITE\<rparr>
            else members ! i"
  let ?c = "Extract lvl ?t path (\<not> isdir ?t) no"
  have ext: "tf_extract (rec_ops rs d) lvl ?t path (\<not> isdir ?t) no h = (rs h ?c, h @ [?c])"
    by (simp add: rec_ops_def observe_def)
  show ?case
  proof (cases "rs h ?c")
    case (Some e)
    with ext Cons.prems have "h' = h @ [?c]" by (simp add: Let_def)
    then show ?thesis by auto
  next
    case None
    with ext Cons.prems have
      "extract_loop (rec_ops rs d) lvl path no members is ?ds1 (h @ [?c]) = (r, ds', h')"
      by (simp add: Let_def)
    from Cons.IH[OF this] obtain new where
      "h' = (h @ [?c]) @ new" "\<forall>c\<in>set new. \<exists>l t p a b. c = Extract l t p a b" by blast
    then have "h' = h @ (?c # new) \<and> (\<forall>c\<in>set (?c # new). \<exists>l t p a b. c = Extract l t p a b)"
      by auto
    then show ?thesis by blast
  qed
qed

lemma post_call_name:
  "post_call t0 dp no c \<Longrightarrow> attr_call_name c = Some n \<Longrightarrow> n = name t0"
  by (cases c) (auto simp: post_call_def dest: entry_rel_name)

lemma sorted_wrt_ge_const: "(\<forall>x\<in>set xs. x = (a::string)) \<Longrightarrow> sorted_wrt (\<ge>) xs"
  by (induction xs) auto

lemma map_filter_append: "List.map_filter f (xs @ ys) = List.map_filter f xs @ List.map_filter f ys"
  by (simp add: List.map_filter_def)

lemma set_map_filter: "set (List.map_filter f xs) = {y. \<exists>x\<in>set xs. f x = Some y}"
  by (induction xs) (auto simp: map_filter_simps split: option.splits)

lemma rec_set_attrs_loop_sorted:
  assumes "set_attrs_loop (rec_ops rs d) lvl path no ms is h = (r, ms', h')"
    and "list_all2 entry_rel orig ms"
    and "\<And>i. i \<in> set is \<Longrightarrow> i < length orig \<and> isdir (orig ! i)"
    and "sorted_wrt (\<ge>) (map (\<lambda>i. name (orig ! i)) is)"
  shows "\<exists>new. h' = h @ new \<and> sorted_wrt (\<ge>) (List.map_filter attr_call_name new) \<and>
           (\<forall>n\<in>set (List.map_filter attr_call_name new). \<exists>i\<in>set is. n = name (orig ! i))"
  using assms
proof (induction "is" arbitrary: ms h)
  case Nil
  then show ?case by (simp add: List.map_filter_def)
next
  case (Cons i "is")
  obtain r1 ms1 h1 where step: "set_dir_attrs (rec_ops rs d) lvl path no ms i h = (r1, ms1, h1)"
    by (cases "set_dir_attrs (rec_ops rs d) lvl path no ms i h") auto
  have i: "i < length orig" "isdir (orig ! i)" using Cons.prems(3)[of i] by auto
  then have ims: "i < length ms" using Cons.prems(2) by (simp add: list_all2_lengthD)
  have reli: "entry_rel (orig ! i) (ms ! i)"
    using Cons.prems(2) i(1) by (simp add: list_all2_nthD)
  from rec_set_dir_attrs[OF step ims] obtain new1 where
    new1: "h1 = h @ new1"
      "\<forall>c\<in>set new1. post_call (ms ! i) (os_path_join path (name (ms ! i))) no c"
    by blast
  have names1: "\<forall>n\<in>set (List.map_filter attr_call_name new1). n = name (orig ! i)"
    using new1(2) post_call_name entry_rel_name[OF reli]
    by (fastforce simp: set_map_filter)
  have sorted1: "sorted_wrt (\<ge>) (List.map_filter attr_call_name new1)"
    using names1 by (rule sorted_wrt_ge_const)
  have rel1: "list_all2 entry_rel orig ms1"
    using set_dir_attrs_store[OF step] Cons.prems(2) store_rel_update[OF Cons.prems(2)] i
    by auto
  show ?case
  proof (cases r1)
    case (Some e)
    with step Cons.prems(1) have "h' = h1" by simp
    with new1(1) names1 sorted1 show ?thesis by auto
  next
    case None
    with step Cons.prems(1) have
      loop: "set_attrs_loop (rec_ops rs d) lvl path no ms1 is h1 = (r, ms', h')" by simp
    have sorted_tl: "sorted_wrt (\<ge>) (map (\<lambda>i. name (orig ! i)) is)"
      using Cons.prems(4) by simp
    from Cons.IH[OF loop rel1 _ sorted_tl] Cons.prems(3) obtain new2 where
      new2: "h' = h1 @ new2" "sorted_wrt (\<ge>) (List.map_filter attr_call_name new2)"
        "\<forall>n\<in>set (List.map_filter attr_call_name new2). \<exists>j\<in>set is. n = name (orig ! j)"
      by auto
    have cross: "\<forall>x\<in>set (List.map_filter attr_call_name new1).
        \<forall>y\<in>set (List.map_filter attr_call_name new2). x \<ge> y"
      using names1 new2(3) Cons.prems(4) by auto
    have "h' = h @ (new1 @ new2)" using new1(1) new2(1) by simp
    moreover have "sorted_wrt (\<ge>) (List.map_filter attr_call_name (new1 @ new2))"
      using sorted1 new2(2) cross by (simp add: map_filter_append sorted_wrt_append)
    moreover have "\<forall>n\<in>set (List.map_filter attr_call_name (new1 @ new2)).
        \<exists>j\<in>set (i # is). n = name (orig ! j)"
      using names1 new2(3) by (auto simp: map_filter_append)
    ultimately show ?thesis by blast
  qed
qed

lemma sorted_wrt_map_filter_nth:
  "sorted_wrt P (List.map_filter f xs) \<Longrightarrow> i < j \<Longrightarrow> j < length xs \<Longrightarrow>
   f (xs ! i) = Some a \<Longrightarrow> f (xs ! j) = Some b \<Longrightarrow> P a b"
proof (induction xs arbitrary: i j)
  case Nil
  then show ?case by simp
next
  case (Cons x xs)
  obtain j' where j: "j = Suc j'" using Cons.prems(2) by (cases j) auto
  show ?case
  proof (cases i)
    case 0
    with Cons.prems(4) have fx: "f x = Some a" by simp
    have "xs ! j' \<in> set xs" using Cons.prems(3) j by simp
    with Cons.prems(5) j have "b \<in> set (List.map_filter f xs)"
      by (auto simp: set_map_filter)
    with Cons.prems(1) fx show ?thesis by (simp add: map_filter_simps)
  next
    case (Suc i')
    have "sorted_wrt P (List.map_filter f xs)"
      using Cons.prems(1) by (cases "f x") (auto simp: map_filter_simps)
    from Cons.IH[OF this, of i' j'] Cons.prems Suc j show ?thesis by simp
  qed
qed

lemma strict_prefix_less: "strict_prefix (xs::string) ys \<Longrightarrow> xs < ys"
proof -
  assume "strict_prefix xs ys"
  then obtain zs where "ys = xs @ zs" "zs \<noteq> []"
    by (auto simp: strict_prefix_def prefix_def)
  then obtain b z where "ys = xs @ b # z" by (cases zs) auto
  then show ?thesis
    by (simp add: list_less_def lexord_append_rightI)
qed

lemma reverse_sorted_desc:
  "sorted_wrt (\<ge>) (map (\<lambda>i. name (members ! i)) (reverse_sorted members ds))"
proof -
  have "sorted (map (\<lambda>i. name (members ! i)) (sort_key (\<lambda>i. name (members ! i)) ds))"
    by (rule sorted_sort_key)
  then show ?thesis
    by (simp add: reverse_sorted_def rev_map[symmetric] sorted_wrt_rev)
qed

lemma rec_extractall:
  assumes "extractall (rec_ops rs d) lvl path None no members [] = (r, members', tr)"
  shows "\<exists>ext post. tr = ext @ post \<and>
           (\<forall>c\<in>set ext. \<exists>l t p a b. c = Extract l t p a b) \<and>
           (\<forall>c\<in>set post. \<exists>i<length members. isdir (members ! i) \<and>
               post_call (members ! i) (os_path_join path (name (members ! i))) no c) \<and>
           sorted_wrt (\<ge>) (List.map_filter attr_call_name post)"
proof -
  obtain r1 ds h1 where ext:
    "extract_loop (rec_ops rs d) lvl path no members [0..<length members] [] [] = (r1, ds, h1)"
    by (cases "extract_loop (rec_ops rs d) lvl path no members [0..<length members] [] []") auto
  from rec_extract_loop[OF ext] have h1: "\<forall>c\<in>set h1. \<exists>l t p a b. c = Extract l t p a b"
    by auto
  have ds: "\<And>i. i \<in> set ds \<Longrightarrow> i < length members \<and> isdir (members ! i)"
    using extract_loop_directories[OF ext] by auto
  show ?thesis
  proof (cases r1)
    case (Some e)
    with ext assms have "tr = h1 @ []" by (simp add: extractall_def)
    with h1 show ?thesis
      by (intro exI[of _ h1] exI[of _ "[]"]) (simp add: map_filter_simps)
  next
    case None
    with ext assms have loop:
      "set_attrs_loop (rec_ops rs d) lvl path no members (reverse_sorted members ds) h1
         = (r, members', tr)"
      by (simp add: extractall_def)
    have in_rs: "\<And>i. i \<in> set (reverse_sorted members ds) \<Longrightarrow>
        i < length members \<and> isdir (members ! i)"
      using ds by (simp add: set_reverse_sorted)
    from rec_set_attrs_loop[OF loop entry_rel_refl in_rs] obtain new where
      new: "tr = h1 @ new"
        "\<forall>c\<in>set new. \<exists>i\<in>set (reverse_sorted members ds).
            post_call (members ! i) (os_path_join path (name (members ! i))) no c"
      by blast
    from rec_set_attrs_loop_sorted[OF loop entry_rel_refl in_rs reverse_sorted_desc]
    obtain new' where
      new': "tr = h1 @ new'" "sorted_wrt (\<ge>) (List.map_filter attr_call_name new')"
      by blast
    from new(1) new'(1) have "new' = new" by simp
    with new'(2) have sorted: "sorted_wrt (\<ge>) (List.map_filter attr_call_name new)" by simp
    have post: "\<forall>c\<in>set new. \<exists>i<length members. isdir (members ! i) \<and>
        post_call (members ! i) (os_path_join path (name (members ! i))) no c"
    proof
      fix c assume "c \<in> set new"
      with new(2) obtain i where "i \<in> set (reverse_sorted members ds)"
        "post_call (members ! i) (os_path_join path (name (members ! i))) no c" by blast
      with in_rs show "\<exists>i<length members. isdir (members ! i) \<and>
        post_call (members ! i) (os_path_join path (name (members ! i))) no c" by blast
    qed
    from new(1) h1 post sorted show ?thesis
      by (intro exI[of _ h1] exI[of _ new]) simp
  qed
qed

lemma post_call_Chmod:
  "post_call t0 dp no (Chmod t p) \<Longrightarrow> t = t0\<lparr>mode := final_mode (mode t0)\<rparr> \<and> p = dp"
  by (simp add: post_call_def)

lemma rec_extractall_chmod:
  assumes "extractall (rec_ops rs d) lvl path None no members [] = (r, members', tr)"
    and "Chmod t p \<in> set tr"
  shows "\<exists>i<length members. isdir (members ! i) \<and>
           t = (members ! i)\<lparr>mode := final_mode (mode (members ! i))\<rparr> \<and>
           p = os_path_join path (name (members ! i))"
proof -
  from rec_extractall[OF assms(1)] obtain ext post where
    tr: "tr = ext @ post"
    and ext: "\<forall>c\<in>set ext. \<exists>l t p a b. c = Extract l t p a b"
    and post: "\<forall>c\<in>set post. \<exists>i<length members. isdir (members ! i) \<and>
               post_call (members ! i) (os_path_join path (name (members ! i))) no c"
    by blast
  from assms(2) tr ext have "Chmod t p \<in> set post" by auto
  with post obtain i where "i < length members" "isdir (members ! i)"
    "post_call (members ! i) (os_path_join path (name (members ! i))) no (Chmod t p)"
    by blast
  with post_call_Chmod show ?thesis by blast
qed

subsection \<open>Runs of \<^verbatim>\<open>extractall\<close> on concrete layers\<close>


lemma private_dir_run:
  "extractall (rec_ops quiet (\<lambda>h p. True)) 1 ''out'' None False private_dir_layer [] =
     (None, [dir_entry ''etc'' 16834],
      [Extract 1 (dir_entry ''etc'' 448) ''out'' False False,
       Chown (dir_entry ''etc'' 16832) ''out/etc'' False,
       Utime (dir_entry ''etc'' 16832) ''out/etc'',
       Chmod (dir_entry ''etc'' 16834) ''out/etc''])"
  by code_simp

lemma private_dir_on_disk:
  "map_option perm (snd (snd (extractall sim_ops 1 ''out'' None False private_dir_layer out_fs))
     ''out/etc'') = Some 16834"
  by code_simp

lemma nested_dirs_run:
  "extractall (rec_ops quiet (\<lambda>h p. True)) 1 ''out'' None False nested_dirs_layer [] =
     (None, [dir_entry ''a'' 16879, dir_entry ''a/b'' 16879],
      [Extract 1 (dir_entry ''a'' 448) ''out'' False False,
       Extract 1 (dir_entry ''a/b'' 448) ''out'' False False,
       Chown (dir_entry ''a/b'' 16877) ''out/a/b'' False,
       Utime (dir_entry ''a/b'' 16877) ''out/a/b'',
       Chmod (dir_entry ''a/b'' 16879) ''out/a/b'',
       Chown (dir_entry ''a'' 16877) ''out/a'' False,
       Utime (dir_entry ''a'' 16877) ''out/a'',
       Chmod (dir_entry ''a'' 16879) ''out/a''])"
  by code_simp

lemma mixed_run:
  "extractall (rec_ops quiet (\<lambda>h p. True)) 1 ''out'' None False mixed_layer [] =
     (None, [file_entry ''f'' 420, dir_entry ''var'' 16879],
      [Extract 1 (file_entry ''f'' 420) ''out'' True False,
       Extract 1 (dir_entry ''var'' 448) ''out'' False False,
       Chown (dir_entry ''var'' 16877) ''out/var'' False,
       Utime (dir_entry ''var'' 16877) ''out/var'',
       Chmod (dir_entry ''var'' 16879) ''out/var''])"
  by code_simp

subsection \<open>The mode that the second loop applies\<close>



text \<open>
  Claim C10. Under the same conditions the mode applied is the recorded mode bitwise-or
  \<^verbatim>\<open>0o202\<close> (130): besides owner-write it sets the write bit of others, \<^verbatim>\<open>0o002\<close>.
  The witness is a directory recorded with \<^verbatim>\<open>0o40700\<close>, no permission for others,
  that is left with mode \<^verbatim>\<open>0o40702\<close> in the simulated file system.
\<close>

theorem post_pass_mode_is_or_0o202:
  assumes "extractall (rec_ops rs d) lvl path None no members [] = (r, members', tr)"
    and "Chmod t p \<in> set tr"
  shows "\<exists>i<length members.
           isdir (members ! i) \<and> t = (members ! i)\<lparr>mode := mode t\<rparr> \<and>
           p = os_path_join path (name (members ! i)) \<and>
           (mode (members ! i) AND DIRECTORY_MODE \<noteq> 0 \<longrightarrow>
              mode t = mode (members ! i) OR 130 \<and> mode t AND S_IWOTH = S_IWOTH)"
proof -
  from rec_extractall_chmod[OF assms] obtain i where
    i: "i < length members" "isdir (members ! i)"
      "t = (members ! i)\<lparr>mode := final_mode (mode (members ! i))\<rparr>"
      "p = os_path_join path (name (members ! i))"
    by blast
  have "mode (members ! i) AND DIRECTORY_MODE \<noteq> 0 \<longrightarrow>
          mode t = mode (members ! i) OR 130 \<and> mode t AND S_IWOTH = S_IWOTH"
    using i(3) other_write_forced[of "mode (members ! i)"]
    by (simp add: final_mode_def OWNER_WRITE_def)
  moreover have "t = (members ! i)\<lparr>mode := mode t\<rparr>" using i(3) by simp
  ultimately show ?thesis using i by blast
qed

theorem post_pass_mode_is_or_0o202_witness:
  "Chmod (dir_entry ''etc'' 16834) ''out/etc''
     \<in> set (snd (snd (extractall quiet_ops 1 ''out'' None False private_dir_layer []))) \<and>
   mode (private_dir_layer ! 0) AND DIRECTORY_MODE \<noteq> 0 \<and>
   mode (private_dir_layer ! 0) AND S_IRWXO = 0 \<and>
   mode (dir_entry ''etc'' 16834) = mode (private_dir_layer ! 0) OR 130 \<and>
   mode (dir_entry ''etc'' 16834) AND S_IWOTH = S_IWOTH \<and>
   map_option perm (snd (snd (extractall sim_ops 1 ''out'' None False private_dir_layer out_fs))
     ''out/etc'') = Some 16834"
proof -
  have mem: "Chmod (dir_entry ''etc'' 16834) ''out/etc''
      \<in> set [Extract 1 (dir_entry ''etc'' 448) ''out'' False False,
       Chown (dir_entry ''etc'' 16832) ''out/etc'' False,
       Utime (dir_entry ''etc'' 16832) ''out/etc'',
       Chmod (dir_entry ''etc'' 16834) ''out/etc'']"
    by simp
  have bit: "mode (private_dir_layer ! 0) AND DIRECTORY_MODE \<noteq> 0"
    by (simp add: private_dir_layer_def dir_entry_def DIRECTORY_MODE_def)
  have others: "mode (private_dir_layer ! 0) AND S_IRWXO = 0"
    by (simp add: private_dir_layer_def dir_entry_def S_IRWXO_def)
  from post_pass_mode_is_or_0o202[OF private_dir_run mem] bit
  have "mode (dir_entry ''etc'' 16834) = mode (private_dir_layer ! 0) OR 130 \<and>
        mode (dir_entry ''etc'' 16834) AND S_IWOTH = S_IWOTH"
    by (auto simp: private_dir_layer_def)
  moreover have "Chmod (dir_entry ''etc'' 16834) ''out/etc''
      \<in> set (snd (snd (extractall quiet_ops 1 ''out'' None False private_dir_layer [])))"
    by (simp add: quiet_ops_def private_dir_run)
  ultimately show ?thesis using bit others private_dir_on_disk by blast
qed

subsection \<open>The order of the second loop\<close>

text \<open>
  Claim C5. Whatever the library and the operating system do: the attribute calls
  (\<^verbatim>\<open>chown\<close>, \<^verbatim>\<open>utime\<close>, \<^verbatim>\<open>chmod\<close>) that \<^verbatim>\<open>extractall\<close> issues come in descending
  lexicographic order of the entry names. A call for an entry named \<open>b\<close> comes before
  every call for an entry named \<open>a\<close> when \<open>a < b\<close>, in particular when \<open>a\<close> is a proper
  prefix of \<open>b\<close>, as the name of an ancestor directory is.
\<close>

theorem post_pass_descendants_first:
  assumes "extractall (rec_ops rs d) lvl path None no members [] = (r, members', tr)"
    and "ka < length tr" and "attr_call_name (tr ! ka) = Some a"
    and "kb < length tr" and "attr_call_name (tr ! kb) = Some b"
    and "a < b \<or> strict_prefix a b"
  shows "kb < ka"
proof -
  from rec_extractall[OF assms(1)] obtain ext post where
    tr: "tr = ext @ post"
    and ext: "\<forall>c\<in>set ext. \<exists>l t p a b. c = Extract l t p a b"
    and sorted: "sorted_wrt (\<ge>) (List.map_filter attr_call_name post)"
    by blast
  have "List.map_filter attr_call_name ext = []"
    using ext by (induction ext) (auto simp: map_filter_simps)
  with sorted tr have s: "sorted_wrt (\<ge>) (List.map_filter attr_call_name tr)"
    by (simp add: map_filter_append)
  have less: "a < b" using assms(6) strict_prefix_less by blast
  show ?thesis
  proof (rule ccontr)
    assume "\<not> kb < ka"
    then consider "ka = kb" | "ka < kb" by linarith
    then show False
    proof cases
      case 1
      with assms(3,5) less show False by simp
    next
      case 2
      from sorted_wrt_map_filter_nth[OF s 2 assms(4) assms(3) assms(5)] less
      show False by simp
    qed
  qed
qed

theorem post_pass_descendants_first_witness:
  "attr_call_name (snd (snd (extractall quiet_ops 1 ''out'' None False nested_dirs_layer [])) ! 5)
     = Some ''a'' \<and>
   attr_call_name (snd (snd (extractall quiet_ops 1 ''out'' None False nested_dirs_layer [])) ! 4)
     = Some ''a/b'' \<and>
   strict_prefix ''a'' ''a/b'' \<and> (4::nat) < 5"
proof -
  have sp: "''a'' < ''a/b'' \<or> strict_prefix ''a'' ''a/b''" by simp
  have "(4::nat) < 5"
    by (rule post_pass_descendants_first[OF nested_dirs_run _ _ _ _ sp])
       (simp_all add: dir_entry_def)
  then show ?thesis
    by (simp add: quiet_ops_def nested_dirs_run dir_entry_def)
qed

subsection \<open>What \<^verbatim>\<open>extractall\<close> does to the entry objects\<close>

text \<open>
  Claim C9, as the code has it. The first loop extracts a directory through a copy and
  assigns to no entry object, but the second loop assigns to the \<^verbatim>\<open>mode\<close> of the
  recorded object itself (line 63). So after \<^verbatim>\<open>extractall\<close> the member list has its
  length, every entry is either as read or is a directory entry whose recorded mode has
  the directory bit and whose mode is now the recorded mode or-ed with \<^verbatim>\<open>OWNER_WRITE\<close>;
  all other fields and all other entries are as read.
\<close>

theorem extractall_store_frame:
  assumes "extractall ops lvl path sel no members w = (r, members', w')"
  shows "length members' = length members \<and>
         (\<forall>i<length members.
            members' ! i = members ! i \<or>
            (isdir (members ! i) \<and> mode (members ! i) AND DIRECTORY_MODE \<noteq> 0 \<and>
             members' ! i = (members ! i)\<lparr>mode := mode (members ! i) OR OWNER_WRITE\<rparr>))"
  using extractall_store[OF assms]
  by (auto simp: list_all2_conv_all_nth entry_rel_def)

theorem extractall_store_frame_witness:
  "fst (snd (extractall quiet_ops 1 ''out'' None False mixed_layer [])) ! 0 = mixed_layer ! 0 \<and>
   isdir (mixed_layer ! 1) \<and> mode (mixed_layer ! 1) AND DIRECTORY_MODE \<noteq> 0 \<and>
   fst (snd (extractall quiet_ops 1 ''out'' None False mixed_layer [])) ! 1
     = (mixed_layer ! 1)\<lparr>mode := mode (mixed_layer ! 1) OR OWNER_WRITE\<rparr> \<and>
   length (fst (snd (extractall quiet_ops 1 ''out'' None False mixed_layer [])))
     = length mixed_layer"
proof -
  have len: "length (fst (snd (extractall quiet_ops 1 ''out'' None False mixed_layer [])))
      = length mixed_layer"
    using extractall_store_frame[OF mixed_run] by (simp add: quiet_ops_def mixed_run)
  have "isdir (mixed_layer ! 1)" "mode (mixed_layer ! 1) AND DIRECTORY_MODE \<noteq> 0"
    by (simp_all add: mixed_layer_def dir_entry_def isdir_def DIRECTORY_MODE_def)
  moreover have "(mixed_layer ! 1)\<lparr>mode := mode (mixed_layer ! 1) OR OWNER_WRITE\<rparr>
      = dir_entry ''var'' 16879"
    by (simp add: mixed_layer_def dir_entry_def OWNER_WRITE_def)
  ultimately show ?thesis using len
    by (simp add: quiet_ops_def mixed_run) (simp add: mixed_layer_def)
qed

text \<open>
  The claim as stated fails: the entry \<^verbatim>\<open>var\<close> was read with mode \<^verbatim>\<open>0o40755\<close> and
  has mode \<^verbatim>\<open>0o40757\<close> after \<^verbatim>\<open>extractall\<close>.
\<close>

theorem extractall_mutates_directory_mode:
  "map mode var_dir_layer = [16877] \<and>
   map mode (fst (snd (extractall quiet_ops 1 ''out'' None False var_dir_layer []))) = [16879]"
  by code_simp

subsection \<open>Failures while the directory attributes are set\<close>

text \<open>An exception of the \<^verbatim>\<open>try\<close> body is an exception of one of its three calls.\<close>

lemma try_set_attrs_raises:
  assumes "try_set_attrs ops path no members i w = (Some e, members1, w1)"
  shows "(\<exists>t p. chown ops t p no w = (Some e, w1)) \<or>
         (\<exists>t p w'. utime ops t p w' = (Some e, w1)) \<or>
         (\<exists>t p w'. chmod ops t p w' = (Some e, w1))"
  using assms unfolding try_set_attrs_def Let_def
  by (auto split: prod.splits option.splits)

text \<open>
  Claim C6, as the code has it. Let one of \<^verbatim>\<open>chown\<close>, \<^verbatim>\<open>utime\<close>, \<^verbatim>\<open>chmod\<close> fail
  with \<^verbatim>\<open>ExtractError\<close> for the directory \<open>i\<close>. When the \<^verbatim>\<open>errorlevel\<close> of the
  archive object is at most 1, the failure is swallowed: its message goes to \<^verbatim>\<open>_dbg\<close>
  at level 1 and the loop goes on with the remaining directories. Only when the
  \<^verbatim>\<open>errorlevel\<close> is above 1 does the failure leave the loop, and with it
  \<^verbatim>\<open>extractall\<close>. The command line gives 1 by default and 0 with
  \<^verbatim>\<open>--ignore-errors\<close>, never more.
\<close>

theorem attr_failure_propagates_only_above_errorlevel_1:
  assumes "try_set_attrs ops path no members i w = (Some (ExtractError msg), members1, w1)"
  shows "layer_errorlevel a \<le> 1 \<and>
         (errorlevel \<le> 1 \<longrightarrow>
            set_attrs_loop ops errorlevel path no members (i # is) w =
            set_attrs_loop ops errorlevel path no members1 is
              (dbg ops 1 (''tarfile: '' @ msg) w1)) \<and>
         (1 < errorlevel \<longrightarrow>
            set_attrs_loop ops errorlevel path no members (i # is) w =
            (Some (ExtractError msg), members1, w1))"
  using assms by (simp add: layer_errorlevel_def set_dir_attrs_def)

theorem attr_failure_propagates_only_above_errorlevel_1_witness:
  "try_set_attrs sim_ops ''out'' False [dir_entry ''etc'' 16877] 0 foreign_etc_fs =
     (Some (ExtractError ''could not change owner''), [dir_entry ''etc'' 16877], foreign_etc_fs) \<and>
   set_attrs_loop sim_ops 1 ''out'' False [dir_entry ''etc'' 16877] [0] foreign_etc_fs =
     (None, [dir_entry ''etc'' 16877], foreign_etc_fs) \<and>
   set_attrs_loop sim_ops 2 ''out'' False [dir_entry ''etc'' 16877] [0] foreign_etc_fs =
     (Some (ExtractError ''could not change owner''), [dir_entry ''etc'' 16877], foreign_etc_fs)"
proof -
  have t: "try_set_attrs sim_ops ''out'' False [dir_entry ''etc'' 16877] 0 foreign_etc_fs =
     (Some (ExtractError ''could not change owner''), [dir_entry ''etc'' 16877], foreign_etc_fs)"
    by (simp add: try_set_attrs_def sim_ops_def sim_attr_def foreign_etc_fs_def dir_entry_def
        os_path_join_def suffix_to_prefix)
  have d: "dbg sim_ops 1 (''tarfile: '' @ ''could not change owner'') foreign_etc_fs
      = foreign_etc_fs"
    by (simp add: sim_ops_def)
  from attr_failure_propagates_only_above_errorlevel_1[OF t, of _ 1 "[]"]
  have l1: "set_attrs_loop sim_ops 1 ''out'' False [dir_entry ''etc'' 16877] [0] foreign_etc_fs =
     (None, [dir_entry ''etc'' 16877], foreign_etc_fs)"
    by (simp only: d) simp
  from attr_failure_propagates_only_above_errorlevel_1[OF t, of _ 2 "[]"]
  have l2: "set_attrs_loop sim_ops 2 ''out'' False [dir_entry ''etc'' 16877] [0] foreign_etc_fs =
     (Some (ExtractError ''could not change owner''), [dir_entry ''etc'' 16877], foreign_etc_fs)"
    by simp
  from t l1 l2 show ?thesis by blast
qed

text \<open>
  The claim as stated fails: \<^verbatim>\<open>chown\<close> fails on \<^verbatim>\<open>out/etc\<close>, and the run ends without
  an exception, without \<^verbatim>\<open>--ignore-errors\<close> as well as with it. No option makes the
  failure end the run.
\<close>

theorem cli_never_propagates_attr_failure:
  "fst (chown sim_ops (dir_entry ''etc'' 16877) ''out/etc'' False foreign_etc_fs) =
     Some (ExtractError ''could not change owner'') \<and>
   map_option raised (main sim_ops out_args etc_image foreign_etc_fs) = Some None \<and>
   map_option raised (main sim_ops out_args_ignore etc_image foreign_etc_fs) = Some None"
proof -
  have c: "fst (chown sim_ops (dir_entry ''etc'' 16877) ''out/etc'' False foreign_etc_fs) =
     Some (ExtractError ''could not change owner'')"
    by (simp add: sim_ops_def sim_attr_def foreign_etc_fs_def)
  have m1: "map_option raised (main sim_ops out_args etc_image foreign_etc_fs) = Some None"
    by code_simp
  have m2: "map_option raised (main sim_ops out_args_ignore etc_image foreign_etc_fs) = Some None"
    by code_simp
  from c m1 m2 show ?thesis by blast
qed

subsection \<open>Failures while whiteouts are removed\<close>

lemma process_whiteouts_append:
  "process_whiteouts ops (pre @ rest) w0 =
     (case process_whiteouts ops pre w0 of
        (Some e, w) \<Rightarrow> (Some e, w)
      | (None, w) \<Rightarrow> process_whiteouts ops rest w)"
  by (induction pre arbitrary: w0) (auto simp: Let_def split: prod.splits option.splits)

lemma remove_whiteout_fails:
  assumes "unlink ops path w = (Some (OSError n), w') \<or>
           (\<exists>w1. unlink ops path w = (None, w1) \<and>
                 unlink ops (whiteout_newpath path) w1 = (Some (OSError n), w'))"
  shows "remove_whiteout ops path w = (if n = ENOENT then (None, w') else (Some (OSError n), w'))"
  using assms by (auto simp: remove_whiteout_def except_OSError_def Let_def)

text \<open>
  Claim C7. Let \<open>m\<close> be a whiteout marker of the layer, reached after the members
  \<open>pre\<close> were processed without exception, and let one of its two \<^verbatim>\<open>os.unlink\<close> calls
  fail with \<^verbatim>\<open>OSError\<close> of number \<open>n\<close>. When \<open>n\<close> is \<^verbatim>\<open>ENOENT\<close>, nothing is raised
  and the processing goes on with the members after \<open>m\<close>. For every other \<open>n\<close> the
  error leaves the whiteout processing, and the run of \<^verbatim>\<open>main\<close> over the layers ends
  with it: no later member and no later layer is processed.
\<close>

theorem whiteout_unlink_failure_policy:
  assumes "is_whiteout (name m)"
    and "process_whiteouts ops pre w0 = (None, w)"
    and "unlink ops (name m) w = (Some (OSError n), w') \<or>
         (\<exists>w1. unlink ops (name m) w = (None, w1) \<and>
               unlink ops (whiteout_newpath (name m)) w1 = (Some (OSError n), w'))"
  shows "process_whiteouts ops (pre @ m # ms) w0 =
           (if n = ENOENT then process_whiteouts ops ms w' else (Some (OSError n), w')) \<and>
         (n \<noteq> ENOENT \<and> \<not> arg_no_whiteouts a \<and> img_layer_tar img lid = Some members \<and>
          extractall ops (layer_errorlevel a) (arg_output a) None False members v
            = (None, pre @ m # ms, w0)
          \<longrightarrow> extract_layers ops a img (lid # lids) v = (Some (OSError n), w'))"
proof -
  have step: "process_whiteouts ops (pre @ m # ms) w0 =
      (if n = ENOENT then process_whiteouts ops ms w' else (Some (OSError n), w'))"
    using assms(1,2) remove_whiteout_fails[OF assms(3)]
    by (simp add: process_whiteouts_append)
  then show ?thesis
    by (simp add: extract_layer_def)
qed

lemma marker_extracted:
  assumes "fs ''out/.wh.config'' = None"
  shows "extractall sim_ops (layer_errorlevel out_args) (arg_output out_args) None False
           [config_marker] fs =
         (None, [config_marker], fs(''out/.wh.config'' \<mapsto> marker_node))"
  using assms
  by (simp add: extractall_def reverse_sorted_def sim_ops_def sim_extract_def config_marker_def
      file_entry_def isdir_def Let_def os_path_join_def suffix_to_prefix marker_node_def
      out_args_def layer_errorlevel_def)

theorem whiteout_unlink_failure_policy_witness:
  "is_whiteout (name config_marker) \<and>
   unlink sim_ops (name config_marker) (marker_dir_fs(''out/.wh.config'' \<mapsto> marker_node)) =
     (Some (OSError EISDIR), marker_dir_fs(''out/.wh.config'' \<mapsto> marker_node)) \<and>
   EISDIR \<noteq> ENOENT \<and>
   extract_layers sim_ops out_args whiteout_image [''L2''] marker_dir_fs =
     (Some (OSError EISDIR), marker_dir_fs(''out/.wh.config'' \<mapsto> marker_node)) \<and>
   unlink sim_ops (name config_marker) (out_fs(''out/.wh.config'' \<mapsto> marker_node)) =
     (Some (OSError ENOENT), out_fs(''out/.wh.config'' \<mapsto> marker_node)) \<and>
   process_whiteouts sim_ops [config_marker] (out_fs(''out/.wh.config'' \<mapsto> marker_node)) =
     (None, out_fs(''out/.wh.config'' \<mapsto> marker_node))"
proof -
  let ?wA = "marker_dir_fs(''out/.wh.config'' \<mapsto> marker_node)"
  let ?wB = "out_fs(''out/.wh.config'' \<mapsto> marker_node)"
  have wh: "is_whiteout (name config_marker)"
    by (simp add: is_whiteout_def config_marker_def file_entry_def)
  have pre: "process_whiteouts sim_ops [] w = (None, w)" for w :: sim_fs
    by simp
  have uA: "unlink sim_ops (name config_marker) ?wA = (Some (OSError EISDIR), ?wA)"
    by (simp add: sim_ops_def sim_unlink_def config_marker_def file_entry_def marker_dir_fs_def)
  have uB: "unlink sim_ops (name config_marker) ?wB = (Some (OSError ENOENT), ?wB)"
    by (simp add: sim_ops_def sim_unlink_def config_marker_def file_entry_def out_fs_def)
  have ne: "EISDIR \<noteq> ENOENT" by (simp add: EISDIR_def ENOENT_def)
  have tar: "img_layer_tar whiteout_image ''L2'' = Some [config_marker]"
    by (simp add: whiteout_image_def config_marker_def)
  have ext: "extractall sim_ops (layer_errorlevel out_args) (arg_output out_args) None False
      [config_marker] marker_dir_fs = (None, [] @ config_marker # [], ?wA)"
    using marker_extracted[of marker_dir_fs] by (simp add: marker_dir_fs_def)
  have nw: "\<not> arg_no_whiteouts out_args" by (simp add: out_args_def)
  from whiteout_unlink_failure_policy[OF wh pre disjI1[OF uA],
      of "[]" out_args whiteout_image "''L2''" "[config_marker]" marker_dir_fs "[]"]
    ne nw tar ext
  have runA: "extract_layers sim_ops out_args whiteout_image [''L2''] marker_dir_fs =
     (Some (OSError EISDIR), ?wA)"
    by simp
  from whiteout_unlink_failure_policy[OF wh pre disjI1[OF uB], of "[]"]
  have runB: "process_whiteouts sim_ops [config_marker] ?wB = (None, ?wB)"
    by simp
  from wh uA ne runA uB runB show ?thesis by blast
qed

subsection \<open>Where the whiteouts are removed\<close>

text \<open>
  Claim C1 at a failing input: \<^verbatim>\<open>undocker3 -o out app:v1\<close> on an image whose base layer
  holds the file \<^verbatim>\<open>config\<close> and whose top layer holds the marker \<^verbatim>\<open>.wh.config\<close>. The
  two \<^verbatim>\<open>os.unlink\<close> calls get the entry paths as they are, relative to the current
  directory and not under the output directory. In the simulated file system the first
  call fails with \<^verbatim>\<open>ENOENT\<close>, which is swallowed; the run ends without exception, and
  both \<^verbatim>\<open>out/.wh.config\<close> and \<^verbatim>\<open>out/config\<close> are still in the output tree.
\<close>

theorem whiteouts_not_removed_from_output_dir:
  "map_option world (main quiet_ops out_args whiteout_image []) =
     Some [Extract 1 (file_entry ''config'' 420) ''out'' True False,
           Extract 1 (file_entry ''.wh.config'' 420) ''out'' True False,
           Unlink ''.wh.config'', Unlink ''config''] \<and>
   map_option (\<lambda>res. (raised res, map_option kind (world res ''out/.wh.config''),
                       map_option kind (world res ''out/config'')))
     (main sim_ops out_args whiteout_image out_fs) = Some (None, Some File, Some File)"
proof -
  have calls: "map_option world (main quiet_ops out_args whiteout_image []) =
     Some [Extract 1 (file_entry ''config'' 420) ''out'' True False,
           Extract 1 (file_entry ''.wh.config'' 420) ''out'' True False,
           Unlink ''.wh.config'', Unlink ''config'']"
    by code_simp
  have left: "map_option (\<lambda>res. (raised res, map_option kind (world res ''out/.wh.config''),
                       map_option kind (world res ''out/config'')))
     (main sim_ops out_args whiteout_image out_fs) = Some (None, Some File, Some File)"
    by code_simp
  from calls left show ?thesis by blast
qed

subsection \<open>Resolving the image\<close>

text \<open>
  A reference with an explicit tag whose pair of name and tag is not in the manifest ends
  the run in the way the specification calls \<open>ImageNotFound\<close>.
\<close>

lemma explicit_tag_not_found:
  assumes "split_colon ref = Some (n, t)"
    and "Option.bind (map_of repos n) (\<lambda>tags. map_of tags t) = None"
  shows "is_image_not_found (resolve_image repos (Some ref))"
proof -
  from assms(1) have "ref \<noteq> []" by auto
  with assms show ?thesis
    by (simp add: is_image_not_found_def resolve_image_def default_image_def name_and_tag_def
        lookup_top_def)
qed

text \<open>
  Claim C8 at a failing input: the reference \<^verbatim>\<open>web\<close>, without tag, against the manifest
  \<^verbatim>\<open>{"app": {"v1": "L3"}}\<close>. The lookup \<^verbatim>\<open>repos[args.image]\<close> of line 161 raises
  \<^verbatim>\<open>KeyError\<close> inside the handler of \<^verbatim>\<open>ValueError\<close>, where nothing catches it: the run
  ends with an uncaught \<^verbatim>\<open>KeyError\<close>, no error is logged and \<^verbatim>\<open>sys.exit(1)\<close> is not
  reached.
\<close>

theorem tagless_unknown_image_uncaught_KeyError:
  "resolve_image app_repos (Some ''web'') = ([], Inl (KeyError ''web'')) \<and>
   \<not> is_image_not_found (resolve_image app_repos (Some ''web'')) \<and>
   map_option (\<lambda>res. (raised res, errors res)) (main sim_ops web_args whiteout_image out_fs) =
     Some (Some (KeyError ''web''), [])"
proof -
  have r: "resolve_image app_repos (Some ''web'') = ([], Inl (KeyError ''web''))"
    by code_simp
  have n: "\<not> is_image_not_found (resolve_image app_repos (Some ''web''))"
    by (simp add: r is_image_not_found_def)
  have m: "map_option (\<lambda>res. (raised res, errors res))
      (main sim_ops web_args whiteout_image out_fs) = Some (Some (KeyError ''web''), [])"
    by code_simp
  from r n m show ?thesis by blast
qed

end
